theory Spec2Isabelle
  imports Main "HOL-Library.Word"
begin

section \<open>The audio relay service\<close>

text \<open>
  A shallow embedding of \<^verbatim>\<open>AudioRelayService\<close>: the session map, the relay objects it
  refers to, the sockets the service creates and the temporary files it writes are
  fields of one explicit \<open>world\<close>, and every method takes a world and returns the
  world it leaves behind.

  What is outside the service is a parameter: the converter process (what it does with
  the input it is given), what the socket constructor does with the URL and whether
  the socket opens, and what happens to the socket between two timer callbacks. JavaScript runs every callback to completion, so the
  only places where something else can happen are the delays, and the model lets the
  surroundings act exactly there. Calls of the logger change neither the state nor the
  control flow and are left out. The file system is a map from paths to contents,
  with the paths that cannot be written; the other file operations succeed.
\<close>

subsection \<open>Data\<close>

type_synonym byte = "8 word"
type_synonym buffer = "byte list"

text \<open>The \<^verbatim>\<open>readyState\<close> of a \<^verbatim>\<open>ws\<close> socket.\<close>

datatype ready_state = CONNECTING | OPEN | CLOSING | CLOSED

text \<open>
  What the service sends: the two JSON control messages (the start message with its
  \<^verbatim>\<open>format\<close> and \<^verbatim>\<open>sample_rate\<close> payload) as text frames, and audio as binary frames.
\<close>

datatype control = StartTranscription string nat | StopTranscription

datatype frame = Text control | Binary buffer

record WS =
  url :: string
  readyState :: ready_state
  sent :: "frame list"

text \<open>
  \<^verbatim>\<open>type RelaySession\<close>. The \<open>socket\<close> field holds a reference: the handle of a socket
  of the world, or \<open>None\<close> for \<^verbatim>\<open>null\<close>.
\<close>

record RelaySession =
  socket :: "nat option"
  audioBuffer :: "buffer list"
  meetingJoinUrl :: string
  isProcessing :: bool

text \<open>
  The errors the service raises or passes on, one constructor for each message:
  \<^item> \<open>RelayNotFound s\<close>: \<^verbatim>\<open>Relay not found for session s\<close>;
  \<^item> \<open>FfmpegSpawnError m\<close>: the error of the converter's \<^verbatim>\<open>error\<close> event;
  \<^item> \<open>FfmpegExited c\<close>: \<^verbatim>\<open>ffmpeg exited with code c\<close> (\<open>None\<close> is the \<^verbatim>\<open>null\<close> of a
    process killed by a signal);
  \<^item> \<open>OutputNotCreated\<close>: \<^verbatim>\<open>FFmpeg output file not created\<close>;
  \<^item> \<open>EmptyOutput\<close>: \<^verbatim>\<open>FFmpeg produced empty output\<close>;
  \<^item> \<open>SocketError m\<close>: the error of the socket's \<^verbatim>\<open>error\<close> event;
  \<^item> \<open>InvalidUrl u\<close>: the \<^verbatim>\<open>SyntaxError\<close> that \<^verbatim>\<open>new WS(u)\<close> throws for a URL it cannot
    use, \<^verbatim>\<open>Invalid URL: u\<close>;
  \<^item> \<open>FsError m\<close>: the error that \<^verbatim>\<open>fs.writeFileSync\<close> throws.
\<close>

datatype error =
    RelayNotFound string
  | FfmpegSpawnError string
  | FfmpegExited "int option"
  | OutputNotCreated
  | EmptyOutput
  | SocketError string
  | InvalidUrl string
  | FsError string

text \<open>
  The \<^verbatim>\<open>message\<close> of each error. A template literal prints a number in decimal and
  \<^verbatim>\<open>null\<close> as \<^verbatim>\<open>null\<close>.
\<close>

fun show_nat :: "nat \<Rightarrow> string" where
  "show_nat n =
     (if n < 10 then [''0123456789'' ! n]
      else show_nat (n div 10) @ [''0123456789'' ! (n mod 10)])"

declare show_nat.simps [simp del]

definition show_int :: "int \<Rightarrow> string" where
  "show_int i = (if i < 0 then ''-'' @ show_nat (nat (- i)) else show_nat (nat i))"

fun show_code :: "int option \<Rightarrow> string" where
  "show_code None = ''null''"
| "show_code (Some i) = show_int i"

fun message :: "error \<Rightarrow> string" where
  "message (RelayNotFound sessionId) = ''Relay not found for session '' @ sessionId"
| "message (FfmpegSpawnError m) = m"
| "message (FfmpegExited code) = ''ffmpeg exited with code '' @ show_code code"
| "message OutputNotCreated = ''FFmpeg output file not created''"
| "message EmptyOutput = ''FFmpeg produced empty output''"
| "message (SocketError m) = m"
| "message (InvalidUrl u) = ''Invalid URL: '' @ u"
| "message (FsError m) = m"

text \<open>How a promise ends: resolved, rejected, or never settled.\<close>

datatype settlement = Resolved | Rejected error | Pending

text \<open>The value an \<^verbatim>\<open>async\<close> method resolves with.\<close>

datatype js_value = Undefined | Number nat

text \<open>
  The world. \<open>sessions\<close> is the \<^verbatim>\<open>Map\<close> of the service; its values are references
  into \<open>relays\<close>, so a relay object taken out of the map by \<^verbatim>\<open>stop\<close> is still there for
  a call that holds it. \<open>relay_count\<close> and \<open>socket_count\<close> are the next free addresses.
  \<open>write_error\<close> says for a path whether \<^verbatim>\<open>fs.writeFileSync\<close> to it throws, and with what
  message (as it does when the directory of the path does not exist); the service
  never changes it. \<open>ffmpeg_inputs\<close> records, for every time the service started the
  converter, what was at the input path it was pointed at.
\<close>

record world =
  sessions :: "string \<rightharpoonup> nat"
  relays :: "nat \<Rightarrow> RelaySession"
  relay_count :: nat
  sockets :: "nat \<Rightarrow> WS"
  socket_count :: nat
  files :: "string \<rightharpoonup> buffer"
  write_error :: "string \<Rightarrow> string option"
  ffmpeg_inputs :: "buffer option list"

subsection \<open>The surroundings\<close>

text \<open>
  One run of the converter: it cannot be spawned, or it closes with an exit code
  (\<open>None\<close> when a signal killed it), having printed the given text on its error stream
  and written the given contents to its output path (\<open>None\<close>: it wrote nothing).
\<close>

datatype ffmpeg_run = SpawnError string | Close "int option" string "buffer option"

text \<open>
  What \<^verbatim>\<open>new WS(url)\<close> leads to: the constructor throws because it cannot use the URL,
  or it returns a socket that then opens, or one that fails to open, with an
  \<^verbatim>\<open>error\<close> event.
\<close>

datatype connect_event = ConstructorThrows | Opens | ConnectError string

text \<open>
  What happens during one delay: nothing; the socket is closed from the other side
  (only the \<^verbatim>\<open>close\<close> event fires); the socket fails with an \<^verbatim>\<open>error\<close> event; or the
  caller runs \<^verbatim>\<open>stop\<close> on a session.
\<close>

datatype sock_event = Quiet | PeerClose | SockError string | ConcurrentStop string

text \<open>
  \<open>ffmpeg\<close> maps the contents found at the input path to the run. \<open>connect\<close> maps the
  URL to what connecting to it leads to. \<open>events\<close> lists what happens during the successive delays of the streaming phase: the settle delay before
  the first call of \<^verbatim>\<open>sendNextChunk\<close>, each pacing delay before the next call, then the
  grace delay after the stop message. Past the end of the list nothing happens.
\<close>

record env =
  ffmpeg :: "buffer option \<Rightarrow> ffmpeg_run"
  connect :: "string \<Rightarrow> connect_event"
  events :: "sock_event list"

subsection \<open>Session operations\<close>

definition create :: "string \<Rightarrow> string \<Rightarrow> world \<Rightarrow> world" where
  "create sessionId joinUrl w =
     (if sessions w sessionId \<noteq> None then w
      else
        let a = relay_count w;
            relay = \<lparr>socket = None, audioBuffer = [], meetingJoinUrl = joinUrl,
                     isProcessing = False\<rparr>
        in w\<lparr>sessions := (sessions w)(sessionId \<mapsto> a),
             relays := (relays w)(a := relay),
             relay_count := Suc a\<rparr>)"

text \<open>\<^verbatim>\<open>write\<close>; the method resolves with no value.\<close>

definition writeChunk :: "string \<Rightarrow> buffer \<Rightarrow> world \<Rightarrow> error + js_value \<times> world" where
  "writeChunk sessionId chunk w =
     (case sessions w sessionId of
        None \<Rightarrow> Inl (RelayNotFound sessionId)
      | Some a \<Rightarrow>
          let relay = relays w a
          in Inr (Undefined,
                  w\<lparr>relays := (relays w)
                       (a := relay\<lparr>audioBuffer := audioBuffer relay @ [chunk]\<rparr>)\<rparr>))"

definition updateUrl :: "string \<Rightarrow> string \<Rightarrow> world \<Rightarrow> world" where
  "updateUrl sessionId joinUrl w =
     (case sessions w sessionId of
        None \<Rightarrow> w
      | Some a \<Rightarrow> w\<lparr>relays := (relays w)(a := (relays w a)\<lparr>meetingJoinUrl := joinUrl\<rparr>)\<rparr>)"

text \<open>\<^verbatim>\<open>socket.close()\<close> on an open socket starts the closing handshake.\<close>

definition ws_close :: "nat \<Rightarrow> world \<Rightarrow> world" where
  "ws_close h w = w\<lparr>sockets := (sockets w)(h := (sockets w h)\<lparr>readyState := CLOSING\<rparr>)\<rparr>"

definition stop :: "string \<Rightarrow> world \<Rightarrow> world" where
  "stop sessionId w =
     (case sessions w sessionId of
        None \<Rightarrow> w
      | Some a \<Rightarrow>
          let w1 = (case socket (relays w a) of
                      None \<Rightarrow> w
                    | Some h \<Rightarrow> if readyState (sockets w h) = OPEN then ws_close h w else w)
          in w1\<lparr>sessions := (sessions w1)(sessionId := None)\<rparr>)"

subsection \<open>Transcoding\<close>

text \<open>
  \<^verbatim>\<open>transcodeWithFfmpeg\<close>: the promise is rejected by the process's \<^verbatim>\<open>error\<close> event and
  by a \<^verbatim>\<open>close\<close> event whose code is not \<open>0\<close>, and resolved by a \<^verbatim>\<open>close\<close> with code \<open>0\<close>.
  The text of the error stream is collected and logged, and goes nowhere else.
\<close>

definition transcodeWithFfmpeg ::
  "(buffer option \<Rightarrow> ffmpeg_run) \<Rightarrow> string \<Rightarrow> string \<Rightarrow> world \<Rightarrow> settlement \<times> world" where
  "transcodeWithFfmpeg conv inputFile outputFile w =
     (let w1 = w\<lparr>ffmpeg_inputs := ffmpeg_inputs w @ [files w inputFile]\<rparr>
      in case conv (files w inputFile) of
           SpawnError m \<Rightarrow> (Rejected (FfmpegSpawnError m), w1)
         | Close code stderr out \<Rightarrow>
             let w2 = (case out of
                         None \<Rightarrow> w1
                       | Some b \<Rightarrow> w1\<lparr>files := (files w1)(outputFile \<mapsto> b)\<rparr>)
             in if code = Some 0 then (Resolved, w2)
                else (Rejected (FfmpegExited code), w2))"

subsection \<open>Streaming\<close>

definition startCommand :: control where
  "startCommand = StartTranscription ''pcm'' 16000"

definition stopCommand :: control where
  "stopCommand = StopTranscription"

definition chunkSize :: nat where
  "chunkSize = 1024"

text \<open>\<^verbatim>\<open>socket.send\<close>, called on an open socket only.\<close>

definition ws_send :: "nat \<Rightarrow> frame \<Rightarrow> world \<Rightarrow> world" where
  "ws_send h f w = w\<lparr>sockets := (sockets w)(h := (sockets w h)\<lparr>sent := sent (sockets w h) @ [f]\<rparr>)\<rparr>"

text \<open>\<^verbatim>\<open>Buffer.subarray(start, end)\<close> for \<open>start \<le> end \<le> length\<close>.\<close>

definition subarray :: "buffer \<Rightarrow> nat \<Rightarrow> nat \<Rightarrow> buffer" where
  "subarray b start end = take (end - start) (drop start b)"

text \<open>
  The effect of one event on the world, seen from the socket \<open>h\<close> of the streaming
  phase. A socket that fails leaves the open state as it emits \<^verbatim>\<open>error\<close>.
\<close>

fun deliver :: "nat \<Rightarrow> sock_event \<Rightarrow> world \<Rightarrow> world" where
  "deliver h Quiet w = w"
| "deliver h PeerClose w =
     w\<lparr>sockets := (sockets w)(h := (sockets w h)\<lparr>readyState := CLOSED\<rparr>)\<rparr>"
| "deliver h (SockError m) w =
     w\<lparr>sockets := (sockets w)(h := (sockets w h)\<lparr>readyState := CLOSING\<rparr>)\<rparr>"
| "deliver h (ConcurrentStop sessionId) w = stop sessionId w"

fun next_event :: "sock_event list \<Rightarrow> sock_event" where
  "next_event [] = Quiet"
| "next_event (e # es) = e"

text \<open>
  Once the send loop has given up, the promise is still pending and only the
  \<^verbatim>\<open>error\<close> handler can settle it.
\<close>

fun after_abort :: "nat \<Rightarrow> sock_event list \<Rightarrow> world \<Rightarrow> settlement \<times> world" where
  "after_abort h [] w = (Pending, w)"
| "after_abort h (SockError m # es) w = (Rejected (SocketError m), deliver h (SockError m) w)"
| "after_abort h (e # es) w = after_abort h es (deliver h e w)"

text \<open>
  The grace delay after the stop message: \<^verbatim>\<open>resolve\<close> fires at its end, unless the
  \<^verbatim>\<open>error\<close> handler rejected the promise first.
\<close>

definition grace :: "nat \<Rightarrow> sock_event list \<Rightarrow> world \<Rightarrow> settlement \<times> world" where
  "grace h es w =
     (case next_event es of
        SockError m \<Rightarrow> (Rejected (SocketError m), deliver h (SockError m) w)
      | e \<Rightarrow> (Resolved, deliver h e w))"

text \<open>
  \<^verbatim>\<open>sendNextChunk\<close>, with the delay that precedes the call: first the event of that
  delay, then the body of the callback.
\<close>

function sendNextChunk ::
  "nat \<Rightarrow> buffer \<Rightarrow> sock_event list \<Rightarrow> nat \<Rightarrow> world \<Rightarrow> settlement \<times> world" where
  "sendNextChunk h pcmData es offset w =
     (case next_event es of
        SockError m \<Rightarrow> (Rejected (SocketError m), deliver h (SockError m) w)
      | e \<Rightarrow>
          let w1 = deliver h e w
          in if readyState (sockets w1 h) \<noteq> OPEN then after_abort h (tl es) w1
             else if offset \<ge> length pcmData
             then grace h (tl es) (ws_send h (Text stopCommand) w1)
             else
               let end = min (offset + chunkSize) (length pcmData);
                   chunk = subarray pcmData offset end
               in sendNextChunk h pcmData (tl es) end (ws_send h (Binary chunk) w1))"
  by pat_completeness auto
termination
  by (relation "measure (\<lambda>(h, pcmData, es, offset, w). length pcmData - offset)")
     (auto simp: chunkSize_def)

declare sendNextChunk.simps [simp del]

text \<open>
  \<^verbatim>\<open>sendToTingwu\<close>. The executor of the promise first runs \<^verbatim>\<open>new WS(url)\<close> and assigns
  the socket, still connecting, to \<^verbatim>\<open>relay.socket\<close> (\<open>new_socket\<close>). An exception in
  the executor rejects the promise: when the constructor throws, no socket exists and
  \<^verbatim>\<open>relay.socket\<close> has not been assigned.
\<close>

definition new_socket :: "nat \<Rightarrow> world \<Rightarrow> world" where
  "new_socket a w =
     (let h = socket_count w
      in w\<lparr>sockets := (sockets w)
                (h := \<lparr>url = meetingJoinUrl (relays w a), readyState = CONNECTING, sent = []\<rparr>),
             socket_count := Suc h,
             relays := (relays w)(a := (relays w a)\<lparr>socket := Some h\<rparr>)\<rparr>)"

definition set_readyState :: "nat \<Rightarrow> ready_state \<Rightarrow> world \<Rightarrow> world" where
  "set_readyState h st w = w\<lparr>sockets := (sockets w)(h := (sockets w h)\<lparr>readyState := st\<rparr>)\<rparr>"

definition sendToTingwu ::
  "(string \<Rightarrow> connect_event) \<Rightarrow> sock_event list \<Rightarrow> nat \<Rightarrow> buffer \<Rightarrow> world \<Rightarrow>
     settlement \<times> world" where
  "sendToTingwu conn es a pcmData w =
     (case conn (meetingJoinUrl (relays w a)) of
        ConstructorThrows \<Rightarrow> (Rejected (InvalidUrl (meetingJoinUrl (relays w a))), w)
      | ConnectError m \<Rightarrow>
          (Rejected (SocketError m), set_readyState (socket_count w) CLOSED (new_socket a w))
      | Opens \<Rightarrow>
          sendNextChunk (socket_count w) pcmData es 0
            (ws_send (socket_count w) (Text startCommand)
               (set_readyState (socket_count w) OPEN (new_socket a w))))"

subsection \<open>processAndSend\<close>

text \<open>
  \<^verbatim>\<open>os.tmpdir()\<close>, and \<^verbatim>\<open>path.join\<close> as concatenation. For a session id that is not a
  plain file name the path lies in a directory that need not exist; then \<open>write_error\<close>
  of the world is what says that the input file cannot be written.
\<close>

definition tmpdir :: string where
  "tmpdir = ''/tmp''"

definition path_join :: "string \<Rightarrow> string \<Rightarrow> string" where
  "path_join d f = d @ ''/'' @ f"

definition tempInputFile :: "string \<Rightarrow> string" where
  "tempInputFile sessionId = path_join tmpdir (sessionId @ ''-input.tmp'')"

definition tempOutputFile :: "string \<Rightarrow> string" where
  "tempOutputFile sessionId = path_join tmpdir (sessionId @ ''-output.pcm'')"

text \<open>The body of the \<^verbatim>\<open>try\<close> block, for the relay object at address \<open>a\<close>.\<close>

definition try_block :: "env \<Rightarrow> string \<Rightarrow> nat \<Rightarrow> buffer \<Rightarrow> world \<Rightarrow> settlement \<times> world" where
  "try_block e sessionId a fullAudio w =
     (case write_error w (tempInputFile sessionId) of
        Some m \<Rightarrow> (Rejected (FsError m), w)
      | None \<Rightarrow>
          (let w1 = w\<lparr>files := (files w)(tempInputFile sessionId \<mapsto> fullAudio)\<rparr>
           in case transcodeWithFfmpeg (ffmpeg e) (tempInputFile sessionId)
                     (tempOutputFile sessionId) w1 of
                (Rejected err, w2) \<Rightarrow> (Rejected err, w2)
              | (Pending, w2) \<Rightarrow> (Pending, w2)
              | (Resolved, w2) \<Rightarrow>
                  (case files w2 (tempOutputFile sessionId) of
                     None \<Rightarrow> (Rejected OutputNotCreated, w2)
                   | Some aacData \<Rightarrow>
                       if length aacData = 0 then (Rejected EmptyOutput, w2)
                       else sendToTingwu (connect e) (events e) a aacData w2)))"

text \<open>The \<^verbatim>\<open>finally\<close> block: each file is unlinked if it exists.\<close>

definition finally_block :: "string \<Rightarrow> nat \<Rightarrow> world \<Rightarrow> world" where
  "finally_block sessionId a w =
     w\<lparr>relays := (relays w)(a := (relays w a)\<lparr>isProcessing := False\<rparr>),
       files := ((files w)(tempInputFile sessionId := None))
                  (tempOutputFile sessionId := None)\<rparr>"

text \<open>
  \<^verbatim>\<open>processAndSend\<close>. The \<^verbatim>\<open>finally\<close> block runs when the \<^verbatim>\<open>try\<close> block is left, which a
  pending \<^verbatim>\<open>await\<close> never does.
\<close>

definition processAndSend :: "env \<Rightarrow> string \<Rightarrow> world \<Rightarrow> settlement \<times> world" where
  "processAndSend e sessionId w =
     (case sessions w sessionId of
        None \<Rightarrow> (Rejected (RelayNotFound sessionId), w)
      | Some a \<Rightarrow>
          if length (audioBuffer (relays w a)) = 0 then (Resolved, w)
          else if isProcessing (relays w a) then (Resolved, w)
          else
            let w1 = w\<lparr>relays := (relays w)(a := (relays w a)\<lparr>isProcessing := True\<rparr>)\<rparr>;
                fullAudio = concat (audioBuffer (relays w a))
            in (case try_block e sessionId a fullAudio w1 of
                  (Pending, w2) \<Rightarrow> (Pending, w2)
                | (r, w2) \<Rightarrow> (r, finally_block sessionId a w2)))"

subsection \<open>What a streaming phase leaves alone\<close>

text \<open>
  \<open>kept w w'\<close>: from \<open>w\<close> to \<open>w'\<close> no relay object, file or converter record changed, no
  socket or relay was created, no socket changed its URL, and sessions were at most
  removed from the map.
\<close>

definition kept :: "world \<Rightarrow> world \<Rightarrow> bool" where
  "kept w w' \<longleftrightarrow>
     relays w' = relays w \<and> files w' = files w \<and> ffmpeg_inputs w' = ffmpeg_inputs w \<and>
     socket_count w' = socket_count w \<and> relay_count w' = relay_count w \<and>
     (\<forall>s. sessions w' s = None \<or> sessions w' s = sessions w s) \<and>
     (\<forall>k. url (sockets w' k) = url (sockets w k)) \<and>
     write_error w' = write_error w"

subsection \<open>The frames of a payload\<close>

text \<open>
  The framing as the protocol describes it: the payload cut into frames of \<open>chunkSize\<close>
  bytes, the last one shorter when the length is not a multiple. The send loop is
  compared with it below.
\<close>

function frames_of :: "buffer \<Rightarrow> buffer list" where
  "frames_of b = (if b = [] then [] else take chunkSize b # frames_of (drop chunkSize b))"
  by pat_completeness auto
termination
  by (relation "measure length") (auto simp: chunkSize_def)

declare frames_of.simps [simp del]

text \<open>The world after sending the given binary frames on socket \<open>h\<close>, one after another.\<close>

definition send_all :: "nat \<Rightarrow> buffer list \<Rightarrow> world \<Rightarrow> world" where
  "send_all h fs w = foldl (\<lambda>w f. ws_send h (Binary f) w) w fs"

subsection \<open>Example runs\<close>

text \<open>
  The service as constructed: no session, no socket, no file, and every path can be
  written.
\<close>

definition init_world :: world where
  "init_world =
     \<lparr>sessions = Map.empty,
      relays = (\<lambda>a. \<lparr>socket = None, audioBuffer = [], meetingJoinUrl = [], isProcessing = False\<rparr>),
      relay_count = 0,
      sockets = (\<lambda>h. \<lparr>url = [], readyState = CLOSED, sent = []\<rparr>),
      socket_count = 0,
      files = Map.empty,
      write_error = (\<lambda>p. None),
      ffmpeg_inputs = []\<rparr>"

text \<open>Session \<open>s1\<close> just created, with nothing written.\<close>

definition fresh_world :: world where
  "fresh_world = create ''s1'' ''wss://example/asr'' init_world"

text \<open>Session \<open>s1\<close> with one chunk of three bytes written.\<close>

definition demo_world :: world where
  "demo_world =
     (case writeChunk ''s1'' [1, 2, 3] fresh_world of
        Inr (v, w') \<Rightarrow> w'
      | Inl err \<Rightarrow> init_world)"

text \<open>
  A converter that exits with \<open>0\<close> and leaves a copy of its input, a socket that opens
  and stays quiet; the same with a socket that fails to open; the same with a converter
  that prints a diagnostic, exits with \<open>1\<close> and writes nothing.
\<close>

definition copy_env :: env where
  "copy_env = \<lparr>ffmpeg = (\<lambda>i. Close (Some 0) [] i), connect = (\<lambda>u. Opens), events = []\<rparr>"

definition refused_env :: env where
  "refused_env = copy_env\<lparr>connect := (\<lambda>u. ConnectError ''refused'')\<rparr>"

definition exit1_env :: env where
  "exit1_env =
     copy_env\<lparr>ffmpeg := (\<lambda>i. Close (Some 1) ''Invalid data found when processing input'' None)\<rparr>"

text \<open>
  Converters that print a diagnostic and exit with \<open>0\<close> but write nothing, or write an
  empty file; a socket that the peer closes during the settle delay; a URL that the
  socket constructor refuses; a temporary directory that cannot be written to.
\<close>

definition silent_env :: env where
  "silent_env = copy_env\<lparr>ffmpeg := (\<lambda>i. Close (Some 0) ''Output file is empty'' None)\<rparr>"

definition empty_env :: env where
  "empty_env = copy_env\<lparr>ffmpeg := (\<lambda>i. Close (Some 0) ''Output file is empty'' (Some []))\<rparr>"

definition hang_env :: env where
  "hang_env = copy_env\<lparr>events := [PeerClose]\<rparr>"

definition badurl_env :: env where
  "badurl_env = copy_env\<lparr>connect := (\<lambda>u. ConstructorThrows)\<rparr>"

definition readonly_world :: world where
  "readonly_world = demo_world\<lparr>write_error := (\<lambda>p. Some ''EACCES: permission denied'')\<rparr>"

text \<open>
  A converter that produces 2500 bytes, which make three frames. After the first frame
  the caller stops the session, or the socket fails.
\<close>

definition stop_env :: env where
  "stop_env = \<lparr>ffmpeg = (\<lambda>i. Close (Some 0) [] (Some (replicate 2500 0))),
                connect = (\<lambda>u. Opens), events = [Quiet, ConcurrentStop ''s1'']\<rparr>"

definition reset_env :: env where
  "reset_env = stop_env\<lparr>events := [Quiet, SockError ''reset'']\<rparr>"

text \<open>The runs of \<^verbatim>\<open>processAndSend\<close> on \<open>demo_world\<close> that the examples below look at.\<close>

definition copy_run :: "settlement \<times> world" where
  "copy_run = processAndSend copy_env ''s1'' demo_world"

definition refused_run :: "settlement \<times> world" where
  "refused_run = processAndSend refused_env ''s1'' demo_world"

definition exit1_run :: "settlement \<times> world" where
  "exit1_run = processAndSend exit1_env ''s1'' demo_world"

definition silent_run :: "settlement \<times> world" where
  "silent_run = processAndSend silent_env ''s1'' demo_world"

definition badurl_run :: "settlement \<times> world" where
  "badurl_run = processAndSend badurl_env ''s1'' demo_world"

definition readonly_run :: "settlement \<times> world" where
  "readonly_run = processAndSend copy_env ''s1'' readonly_world"

definition hang_run :: "settlement \<times> world" where
  "hang_run = processAndSend hang_env ''s1'' demo_world"

definition stop_run :: "settlement \<times> world" where
  "stop_run = processAndSend stop_env ''s1'' demo_world"

definition reset_run :: "settlement \<times> world" where
  "reset_run = processAndSend reset_env ''s1'' demo_world"

section \<open>Lemmas\<close>

lemma kept_refl: "kept w w"
  by (simp add: kept_def)

lemma kept_trans: "kept w w1 \<Longrightarrow> kept w1 w2 \<Longrightarrow> kept w w2"
  unfolding kept_def by (elim conjE, intro conjI allI) (simp, simp, simp, simp, simp, metis, simp, simp)

lemma kept_stop: "kept w (stop s w)"
  by (simp add: kept_def stop_def ws_close_def Let_def split: option.splits)

lemma kept_deliver: "kept w (deliver h e w)"
  by (cases e) (simp_all add: kept_stop, simp_all add: kept_def)

lemma kept_ws_send: "kept w (ws_send h f w)"
  by (simp add: kept_def ws_send_def)

lemma kept_after_abort: "after_abort h es w = (r, w') \<Longrightarrow> kept w w'"
proof (induction es arbitrary: w)
  case Nil
  then show ?case by (simp add: kept_refl)
next
  case (Cons e es)
  show ?case
  proof (cases e)
    case (SockError m)
    then show ?thesis using Cons.prems kept_deliver[of w h e] by auto
  next
    case Quiet
    then have "after_abort h es (deliver h e w) = (r, w')" using Cons.prems by simp
    then show ?thesis using Cons.IH kept_deliver[of w h e] kept_trans by blast
  next
    case PeerClose
    then have "after_abort h es (deliver h e w) = (r, w')" using Cons.prems by simp
    then show ?thesis using Cons.IH kept_deliver[of w h e] kept_trans by blast
  next
    case (ConcurrentStop s)
    then have "after_abort h es (deliver h e w) = (r, w')" using Cons.prems by simp
    then show ?thesis using Cons.IH kept_deliver[of w h e] kept_trans by blast
  qed
qed

lemma kept_grace: "grace h es w = (r, w') \<Longrightarrow> kept w w'"
  using kept_deliver[of w h "next_event es"]
  by (auto simp: grace_def split: sock_event.splits)

lemma sendNextChunk_cases [consumes 1, case_names error aborted finished step]:
  assumes "sendNextChunk h pcm es off w = (r, w')"
  obtains
    (error) m where "next_event es = SockError m" "r = Rejected (SocketError m)"
      "w' = deliver h (SockError m) w"
  | (aborted) "\<forall>m. next_event es \<noteq> SockError m"
      "readyState (sockets (deliver h (next_event es) w) h) \<noteq> OPEN"
      "after_abort h (tl es) (deliver h (next_event es) w) = (r, w')"
  | (finished) "\<forall>m. next_event es \<noteq> SockError m"
      "readyState (sockets (deliver h (next_event es) w) h) = OPEN"
      "length pcm \<le> off"
      "grace h (tl es) (ws_send h (Text stopCommand) (deliver h (next_event es) w)) = (r, w')"
  | (step) "\<forall>m. next_event es \<noteq> SockError m"
      "readyState (sockets (deliver h (next_event es) w) h) = OPEN"
      "off < length pcm"
      "sendNextChunk h pcm (tl es) (min (off + chunkSize) (length pcm))
         (ws_send h (Binary (subarray pcm off (min (off + chunkSize) (length pcm))))
            (deliver h (next_event es) w)) = (r, w')"
proof (cases "next_event es")
  case (SockError m)
  then show ?thesis using assms error by (subst (asm) sendNextChunk.simps) simp
next
  case Quiet
  then show ?thesis using assms aborted finished step
    by (subst (asm) sendNextChunk.simps) (simp add: Let_def split: if_splits)
next
  case PeerClose
  then show ?thesis using assms aborted finished step
    by (subst (asm) sendNextChunk.simps) (simp add: Let_def split: if_splits)
next
  case (ConcurrentStop s)
  then show ?thesis using assms aborted finished step
    by (subst (asm) sendNextChunk.simps) (simp add: Let_def split: if_splits)
qed

lemma kept_sendNextChunk: "sendNextChunk h pcm es off w = (r, w') \<Longrightarrow> kept w w'"
proof (induction "length pcm - off" arbitrary: es off w rule: less_induct)
  case less
  from less.prems show ?case
  proof (cases rule: sendNextChunk_cases)
    case (error m)
    then show ?thesis using kept_deliver[of w h "SockError m"] by simp
  next
    case aborted
    then show ?thesis using kept_after_abort kept_deliver kept_trans by blast
  next
    case finished
    have "kept w (ws_send h (Text stopCommand) (deliver h (next_event es) w))"
      by (rule kept_trans[OF kept_deliver kept_ws_send])
    then show ?thesis using kept_grace[OF finished(4)] by (rule kept_trans)
  next
    case step
    have k: "kept w (ws_send h (Binary (subarray pcm off (min (off + chunkSize) (length pcm))))
            (deliver h (next_event es) w))"
      by (rule kept_trans[OF kept_deliver kept_ws_send])
    have "length pcm - min (off + chunkSize) (length pcm) < length pcm - off"
      using step(3) by (simp add: chunkSize_def)
    from k less.hyps[OF this step(4)] show ?thesis by (rule kept_trans)
  qed
qed

lemma after_abort_result:
  "after_abort h es w = (r, w') \<Longrightarrow> r = Pending \<or> (\<exists>m. r = Rejected (SocketError m))"
proof (induction es arbitrary: w)
  case Nil
  then show ?case by simp
next
  case (Cons e es)
  then show ?case by (cases e) auto
qed

lemma grace_result:
  "grace h es w = (r, w') \<Longrightarrow> r = Resolved \<or> (\<exists>m. r = Rejected (SocketError m))"
  by (auto simp: grace_def split: sock_event.splits)

lemma sendNextChunk_result:
  "sendNextChunk h pcm es off w = (r, w') \<Longrightarrow>
     r = Resolved \<or> r = Pending \<or> (\<exists>m. r = Rejected (SocketError m))"
proof (induction "length pcm - off" arbitrary: es off w rule: less_induct)
  case less
  from less.prems show ?case
  proof (cases rule: sendNextChunk_cases)
    case (error m)
    then show ?thesis by simp
  next
    case aborted
    then show ?thesis using after_abort_result by blast
  next
    case finished
    then show ?thesis using grace_result by blast
  next
    case step
    have "length pcm - min (off + chunkSize) (length pcm) < length pcm - off"
      using step(3) by (simp add: chunkSize_def)
    from less.hyps[OF this step(4)] show ?thesis .
  qed
qed

lemma kept_new_socket:
  "files (new_socket a w) = files w \<and> ffmpeg_inputs (new_socket a w) = ffmpeg_inputs w \<and>
   relay_count (new_socket a w) = relay_count w \<and> sessions (new_socket a w) = sessions w \<and>
   write_error (new_socket a w) = write_error w \<and>
   socket_count (new_socket a w) = Suc (socket_count w) \<and>
   relays (new_socket a w) = (relays w)(a := (relays w a)\<lparr>socket := Some (socket_count w)\<rparr>)"
  by (simp add: new_socket_def Let_def)

lemma kept_set_readyState: "kept w (set_readyState h st w)"
  by (simp add: kept_def set_readyState_def)

text \<open>What a streaming phase changes, for each of the three things the constructor can lead to.\<close>

lemma kept_sendToTingwu:
  assumes "sendToTingwu c es a pcm w = (r, w')"
  shows "files w' = files w \<and> ffmpeg_inputs w' = ffmpeg_inputs w \<and>
     relay_count w' = relay_count w \<and> write_error w' = write_error w \<and>
     (\<forall>s. sessions w' s = None \<or> sessions w' s = sessions w s) \<and>
     (if c (meetingJoinUrl (relays w a)) = ConstructorThrows
      then relays w' = relays w \<and> socket_count w' = socket_count w \<and>
           r = Rejected (InvalidUrl (meetingJoinUrl (relays w a)))
      else relays w' = (relays w)(a := (relays w a)\<lparr>socket := Some (socket_count w)\<rparr>) \<and>
           socket_count w' = Suc (socket_count w) \<and>
           (r = Resolved \<or> r = Pending \<or> (\<exists>m. r = Rejected (SocketError m))))"
proof (cases "c (meetingJoinUrl (relays w a))")
  case ConstructorThrows
  then show ?thesis using assms by (auto simp: sendToTingwu_def)
next
  case (ConnectError m)
  let ?w1 = "set_readyState (socket_count w) CLOSED (new_socket a w)"
  have "w' = ?w1" "r = Rejected (SocketError m)"
    using assms ConnectError by (simp_all add: sendToTingwu_def)
  then show ?thesis
    using ConnectError kept_set_readyState[of "new_socket a w" "socket_count w" CLOSED]
      kept_new_socket[of a w]
    by (simp add: kept_def)
next
  case Opens
  let ?w1 = "ws_send (socket_count w) (Text startCommand)
               (set_readyState (socket_count w) OPEN (new_socket a w))"
  have run: "sendNextChunk (socket_count w) pcm es 0 ?w1 = (r, w')"
    using assms Opens by (simp add: sendToTingwu_def)
  have "kept (new_socket a w) ?w1"
    by (rule kept_trans[OF kept_set_readyState kept_ws_send])
  then have "kept (new_socket a w) w'"
    using kept_sendNextChunk[OF run] by (rule kept_trans)
  then show ?thesis
    using Opens kept_new_socket[of a w] sendNextChunk_result[OF run]
    by (simp add: kept_def)
qed

lemma temp_files_differ: "tempInputFile s \<noteq> tempOutputFile s"
  by (simp add: tempInputFile_def tempOutputFile_def path_join_def)

lemma transcode_frame:
  "transcodeWithFfmpeg conv i out w = (r, w') \<Longrightarrow>
     relays w' = relays w \<and> sessions w' = sessions w \<and> sockets w' = sockets w \<and>
     socket_count w' = socket_count w \<and> relay_count w' = relay_count w \<and>
     write_error w' = write_error w \<and>
     ffmpeg_inputs w' = ffmpeg_inputs w @ [files w i] \<and> r \<noteq> Pending \<and>
     (\<forall>p. p \<noteq> out \<longrightarrow> files w' p = files w p)"
  by (auto simp: transcodeWithFfmpeg_def Let_def split: ffmpeg_run.splits option.splits if_splits)


lemma try_block_cases [consumes 1, case_names unwritable transcode missing empty stream]:
  assumes "try_block e sid a full w = (r, w')"
  obtains
    (unwritable) m where
      "write_error w (tempInputFile sid) = Some m" "r = Rejected (FsError m)" "w' = w"
  | (transcode) err where
      "write_error w (tempInputFile sid) = None"
      "transcodeWithFfmpeg (ffmpeg e) (tempInputFile sid) (tempOutputFile sid)
         (w\<lparr>files := (files w)(tempInputFile sid \<mapsto> full)\<rparr>) = (Rejected err, w')"
      "r = Rejected err"
  | (missing)
      "write_error w (tempInputFile sid) = None"
      "transcodeWithFfmpeg (ffmpeg e) (tempInputFile sid) (tempOutputFile sid)
         (w\<lparr>files := (files w)(tempInputFile sid \<mapsto> full)\<rparr>) = (Resolved, w')"
      "files w' (tempOutputFile sid) = None" "r = Rejected OutputNotCreated"
  | (empty)
      "write_error w (tempInputFile sid) = None"
      "transcodeWithFfmpeg (ffmpeg e) (tempInputFile sid) (tempOutputFile sid)
         (w\<lparr>files := (files w)(tempInputFile sid \<mapsto> full)\<rparr>) = (Resolved, w')"
      "files w' (tempOutputFile sid) = Some []" "r = Rejected EmptyOutput"
  | (stream) w2 pcm where
      "write_error w (tempInputFile sid) = None"
      "transcodeWithFfmpeg (ffmpeg e) (tempInputFile sid) (tempOutputFile sid)
         (w\<lparr>files := (files w)(tempInputFile sid \<mapsto> full)\<rparr>) = (Resolved, w2)"
      "files w2 (tempOutputFile sid) = Some pcm" "pcm \<noteq> []"
      "sendToTingwu (connect e) (events e) a pcm w2 = (r, w')"
proof (cases "write_error w (tempInputFile sid)")
  case (Some m)
  then have "r = Rejected (FsError m)" "w' = w" using assms by (simp_all add: try_block_def)
  then show ?thesis using Some by (intro unwritable[of m]) simp_all
next
  case None
  obtain r1 w2 where t:
    "transcodeWithFfmpeg (ffmpeg e) (tempInputFile sid) (tempOutputFile sid)
       (w\<lparr>files := (files w)(tempInputFile sid \<mapsto> full)\<rparr>) = (r1, w2)"
    by fastforce
  have np: "r1 \<noteq> Pending" using transcode_frame[OF t] by simp
  show ?thesis
  proof (cases r1)
    case Resolved
    show ?thesis
    proof (cases "files w2 (tempOutputFile sid)")
      case nofile: None
      then show ?thesis using assms t Resolved None missing by (simp add: try_block_def)
    next
      case (Some pcm)
      then show ?thesis using assms t Resolved None empty stream
        by (cases "pcm = []") (simp_all add: try_block_def)
    qed
  next
    case (Rejected err)
    then have "r = Rejected err" "w2 = w'" using assms t None by (simp_all add: try_block_def)
    then show ?thesis using t Rejected None by (intro transcode[of err]) simp_all
  next
    case Pending
    then show ?thesis using np by simp
  qed
qed

lemma try_block_frame:
  assumes "try_block e sid a full w = (r, w')"
  shows "ffmpeg_inputs w' =
           (if write_error w (tempInputFile sid) = None then ffmpeg_inputs w @ [Some full]
            else ffmpeg_inputs w) \<and>
     (r = Resolved \<longrightarrow> write_error w (tempInputFile sid) = None) \<and>
     write_error w' = write_error w \<and>
     relay_count w' = relay_count w \<and>
     (\<forall>s. sessions w' s = None \<or> sessions w' s = sessions w s) \<and>
     (\<forall>b. audioBuffer (relays w' b) = audioBuffer (relays w b) \<and>
          isProcessing (relays w' b) = isProcessing (relays w b) \<and>
          meetingJoinUrl (relays w' b) = meetingJoinUrl (relays w b) \<and>
          (b \<noteq> a \<longrightarrow> relays w' b = relays w b))"
  using assms
proof (cases rule: try_block_cases)
  case (unwritable m)
  then show ?thesis by simp
next
  case (transcode err)
  then show ?thesis using transcode_frame[OF transcode(2)] by simp
next
  case missing
  then show ?thesis using transcode_frame[OF missing(2)] by simp
next
  case empty
  then show ?thesis using transcode_frame[OF empty(2)] by simp
next
  case (stream w2 pcm)
  note t = transcode_frame[OF stream(2)]
  note k = kept_sendToTingwu[OF stream(5)]
  show ?thesis
  proof (cases "connect e (meetingJoinUrl (relays w2 a)) = ConstructorThrows")
    case True
    then show ?thesis using t k stream(1) by simp
  next
    case False
    then show ?thesis using t k stream(1) by simp
  qed
qed


lemma frames_of_Nil: "frames_of [] = []"
  by (simp add: frames_of.simps)

lemma frames_of_Cons:
  "b \<noteq> [] \<Longrightarrow> frames_of b = take chunkSize b # frames_of (drop chunkSize b)"
  by (subst frames_of.simps) simp

lemma concat_frames_of: "concat (frames_of b) = b"
proof (induction b rule: frames_of.induct)
  case (1 b)
  then show ?case by (cases "b = []") (simp_all add: frames_of_Nil frames_of_Cons)
qed

lemma chunkSize_pos: "0 < chunkSize"
  by (simp add: chunkSize_def)

lemma ceil_div_step:
  fixes n c :: nat
  assumes "0 < c" "0 < n"
  shows "(n + (c - 1)) div c = Suc ((n - c + (c - 1)) div c)"
proof (cases "c \<le> n")
  case True
  have "(n + (c - 1)) div c = Suc ((n + (c - 1) - c) div c)"
    using assms by (intro le_div_geq) simp_all
  moreover have "n + (c - 1) - c = n - c + (c - 1)" using True assms by simp
  ultimately show ?thesis by simp
next
  case False
  have "(n + (c - 1)) div c = Suc ((n + (c - 1) - c) div c)"
    using assms by (intro le_div_geq) simp_all
  moreover have "(n + (c - 1) - c) div c = 0" using False assms by simp
  moreover have "(n - c + (c - 1)) div c = 0" using False assms by simp
  ultimately show ?thesis by simp
qed

lemma length_frames_of: "length (frames_of b) = (length b + (chunkSize - 1)) div chunkSize"
proof (induction b rule: frames_of.induct)
  case (1 b)
  show ?case
  proof (cases "b = []")
    case True
    then show ?thesis using chunkSize_pos by (simp add: frames_of_Nil)
  next
    case False
    then have pos: "0 < length b" by simp
    have "length (frames_of b) = Suc (length (frames_of (drop chunkSize b)))"
      using False by (simp add: frames_of_Cons)
    also have "\<dots> = Suc ((length b - chunkSize + (chunkSize - 1)) div chunkSize)"
      using "1.IH"[OF False] by simp
    also have "\<dots> = (length b + (chunkSize - 1)) div chunkSize"
      using ceil_div_step[OF chunkSize_pos pos] by simp
    finally show ?thesis .
  qed
qed

lemma frames_of_sizes:
  "f \<in> set (frames_of b) \<Longrightarrow> f \<noteq> [] \<and> length f \<le> chunkSize"
proof (induction b rule: frames_of.induct)
  case (1 b)
  show ?case
  proof (cases "b = []")
    case True
    then show ?thesis using "1.prems" by (simp add: frames_of_Nil)
  next
    case False
    then show ?thesis using 1 by (auto simp: frames_of_Cons chunkSize_def)
  qed
qed

lemma frames_of_full:
  "f \<in> set (butlast (frames_of b)) \<Longrightarrow> length f = chunkSize"
proof (induction b rule: frames_of.induct)
  case (1 b)
  show ?case
  proof (cases "b = []")
    case True
    then show ?thesis using "1.prems" by (simp add: frames_of_Nil)
  next
    case False
    show ?thesis
    proof (cases "drop chunkSize b = []")
      case True
      then show ?thesis using "1.prems" False by (simp add: frames_of_Cons frames_of_Nil)
    next
      case rest: False
      then have "frames_of (drop chunkSize b) \<noteq> []" by (simp add: frames_of_Cons)
      then have "f = take chunkSize b \<or> f \<in> set (butlast (frames_of (drop chunkSize b)))"
        using "1.prems" False by (simp add: frames_of_Cons)
      then show ?thesis using "1.IH"[OF False] rest by auto
    qed
  qed
qed

lemma sent_stop: "sent (sockets (stop s w) k) = sent (sockets w k)"
  by (simp add: stop_def ws_close_def Let_def split: option.splits)

lemma sent_deliver: "sent (sockets (deliver h e w) k) = sent (sockets w k)"
  by (cases e) (simp_all add: sent_stop)

lemma sent_ws_send:
  "sent (sockets (ws_send h f w) k) = (if k = h then sent (sockets w h) @ [f] else sent (sockets w k))"
  by (simp add: ws_send_def)

lemma sent_grace: "grace h es w = (r, w') \<Longrightarrow> sent (sockets w' k) = sent (sockets w k)"
  using sent_deliver[of h "next_event es" w k]
  by (auto simp: grace_def split: sock_event.splits)

lemma sent_after_abort:
  "after_abort h es w = (r, w') \<Longrightarrow> sent (sockets w' k) = sent (sockets w k)"
proof (induction es arbitrary: w)
  case Nil
  then show ?case by simp
next
  case (Cons e es)
  show ?case
  proof (cases "\<exists>m. e = SockError m")
    case True
    then show ?thesis using Cons.prems by auto
  next
    case False
    then have "after_abort h es (deliver h e w) = (r, w')"
      using Cons.prems by (cases e) simp_all
    from Cons.IH[OF this] show ?thesis by (simp add: sent_deliver)
  qed
qed

lemma subarray_step:
  assumes "off < length pcm"
  shows "subarray pcm off (min (off + c) (length pcm)) = take c (drop off pcm)"
    and "drop (min (off + c) (length pcm)) pcm = drop c (drop off pcm)"
proof -
  show "subarray pcm off (min (off + c) (length pcm)) = take c (drop off pcm)"
  proof (cases "off + c \<le> length pcm")
    case True
    then show ?thesis by (simp add: subarray_def)
  next
    case False
    then show ?thesis using assms by (simp add: subarray_def min_def)
  qed
  show "drop (min (off + c) (length pcm)) pcm = drop c (drop off pcm)"
  proof (cases "off + c \<le> length pcm")
    case True
    then show ?thesis by (simp add: add.commute)
  next
    case False
    then show ?thesis by (simp add: min_def)
  qed
qed

lemma sendNextChunk_frames:
  "sendNextChunk h pcm es off w = (Resolved, w') \<Longrightarrow>
     sent (sockets w' h) =
       sent (sockets w h) @ map Binary (frames_of (drop off pcm)) @ [Text stopCommand]"
proof (induction "length pcm - off" arbitrary: es off w rule: less_induct)
  case less
  from less.prems show ?case
  proof (cases rule: sendNextChunk_cases)
    case (error m)
    then show ?thesis by simp
  next
    case aborted
    then show ?thesis using after_abort_result by blast
  next
    case finished
    then show ?thesis
      using sent_grace[OF finished(4), of h]
      by (simp add: sent_ws_send sent_deliver frames_of_Nil)
  next
    case step
    let ?end = "min (off + chunkSize) (length pcm)"
    have "length pcm - ?end < length pcm - off"
      using step(3) by (simp add: chunkSize_def)
    from less.hyps[OF this step(4)]
    have "sent (sockets w' h) =
            (sent (sockets w h) @ [Binary (take chunkSize (drop off pcm))]) @
            map Binary (frames_of (drop chunkSize (drop off pcm))) @ [Text stopCommand]"
      using subarray_step[OF step(3), of chunkSize]
      by (simp add: sent_ws_send sent_deliver)
    moreover have "frames_of (drop off pcm) =
        take chunkSize (drop off pcm) # frames_of (drop chunkSize (drop off pcm))"
      using step(3) by (intro frames_of_Cons) simp
    ultimately show ?thesis by simp
  qed
qed

lemma after_abort_pending:
  "\<forall>m. SockError m \<notin> set es \<Longrightarrow> fst (after_abort h es w) = Pending"
proof (induction es arbitrary: w)
  case Nil
  then show ?case by simp
next
  case (Cons e es)
  then show ?case by (cases e) auto
qed

lemma readyState_ws_send: "readyState (sockets (ws_send h f w) k) = readyState (sockets w k)"
  by (simp add: ws_send_def)

lemma kept_send_all: "kept w (send_all h fs w)"
proof (induction fs arbitrary: w)
  case Nil
  then show ?case by (simp add: send_all_def kept_refl)
next
  case (Cons f fs)
  have "kept (ws_send h (Binary f) w) (send_all h fs (ws_send h (Binary f) w))"
    by (rule Cons.IH)
  with kept_ws_send[of w h "Binary f"] show ?case
    by (simp add: send_all_def) (rule kept_trans)
qed

lemma sent_send_all:
  "sent (sockets (send_all h fs w) k) =
     (if k = h then sent (sockets w h) @ map Binary fs else sent (sockets w k))"
proof (induction fs arbitrary: w)
  case Nil
  then show ?case by (simp add: send_all_def)
next
  case (Cons f fs)
  have "send_all h (f # fs) w = send_all h fs (ws_send h (Binary f) w)"
    by (simp add: send_all_def)
  then show ?case by (simp add: Cons.IH sent_ws_send)
qed

lemma readyState_send_all:
  "readyState (sockets (send_all h fs w) k) = readyState (sockets w k)"
proof (induction fs arbitrary: w)
  case Nil
  then show ?case by (simp add: send_all_def)
next
  case (Cons f fs)
  have "send_all h (f # fs) w = send_all h fs (ws_send h (Binary f) w)"
    by (simp add: send_all_def)
  then show ?case by (simp add: Cons.IH readyState_ws_send)
qed

lemma sendNextChunk_quiet:
  assumes "readyState (sockets w h) = OPEN" "k \<le> length (frames_of (drop off pcm))"
    "off \<le> length pcm"
  shows "sendNextChunk h pcm (replicate k Quiet @ es) off w =
           sendNextChunk h pcm es (min (off + k * chunkSize) (length pcm))
             (send_all h (take k (frames_of (drop off pcm))) w)"
  using assms
proof (induction k arbitrary: off w)
  case 0
  then show ?case by (simp add: send_all_def)
next
  case (Suc k)
  have ne: "drop off pcm \<noteq> []" using Suc.prems(2) by (auto simp: frames_of_Nil)
  then have lt: "off < length pcm" by simp
  let ?end = "min (off + chunkSize) (length pcm)"
  let ?chunk = "take chunkSize (drop off pcm)"
  let ?w1 = "ws_send h (Binary ?chunk) w"
  have fr: "frames_of (drop off pcm) = ?chunk # frames_of (drop ?end pcm)"
    using frames_of_Cons[OF ne] subarray_step(2)[OF lt, of chunkSize] by simp
  have "sendNextChunk h pcm (replicate (Suc k) Quiet @ es) off w =
          sendNextChunk h pcm (replicate k Quiet @ es) ?end ?w1"
    using Suc.prems(1) lt subarray_step(1)[OF lt, of chunkSize]
    by (subst sendNextChunk.simps) (simp add: Let_def)
  also have "\<dots> = sendNextChunk h pcm es (min (?end + k * chunkSize) (length pcm))
             (send_all h (take k (frames_of (drop ?end pcm))) ?w1)"
    using Suc.prems fr by (intro Suc.IH) (simp_all add: readyState_ws_send)
  also have "min (?end + k * chunkSize) (length pcm) = min (off + Suc k * chunkSize) (length pcm)"
    by (simp add: min_def)
  also have "send_all h (take k (frames_of (drop ?end pcm))) ?w1 =
               send_all h (take (Suc k) (frames_of (drop off pcm))) w"
    using fr by (simp add: send_all_def)
  finally show ?case .
qed

lemma sessions_send_all: "sessions (send_all h fs w) = sessions w"
proof (induction fs arbitrary: w)
  case Nil
  then show ?case by (simp add: send_all_def)
next
  case (Cons f fs)
  have "send_all h (f # fs) w = send_all h fs (ws_send h (Binary f) w)"
    by (simp add: send_all_def)
  then show ?case by (simp add: Cons.IH) (simp add: ws_send_def)
qed

lemma deliver_closes:
  assumes "ev = PeerClose \<or> (ev = ConcurrentStop sid \<and> sessions w sid = Some a \<and>
             socket (relays w a) = Some h)"
  shows "readyState (sockets (deliver h ev w) h) \<noteq> OPEN"
  using assms by (cases "readyState (sockets w h) = OPEN") (auto simp: stop_def ws_close_def Let_def)

lemma sendNextChunk_closed:
  assumes "readyState (sockets w h) = OPEN" "k \<le> length (frames_of pcm)"
    "ev = PeerClose \<or> (ev = ConcurrentStop sid \<and> sessions w sid = Some a \<and>
       socket (relays w a) = Some h)"
    "\<forall>m. SockError m \<notin> set rest"
    "sendNextChunk h pcm (replicate k Quiet @ ev # rest) 0 w = (r, w')"
  shows "r = Pending \<and> kept w w' \<and>
         sent (sockets w' h) = sent (sockets w h) @ map Binary (take k (frames_of pcm))"
proof -
  let ?w1 = "send_all h (take k (frames_of pcm)) w"
  let ?off = "min (0 + k * chunkSize) (length pcm)"
  have k1: "kept w ?w1" by (rule kept_send_all)
  have run: "sendNextChunk h pcm (ev # rest) ?off ?w1 = (r, w')"
    using sendNextChunk_quiet[of w h k 0 pcm "ev # rest"] assms(1,2,5) by simp
  have ne: "\<forall>m. next_event (ev # rest) \<noteq> SockError m" using assms(3) by auto
  have "ev = PeerClose \<or> (ev = ConcurrentStop sid \<and> sessions ?w1 sid = Some a \<and>
             socket (relays ?w1 a) = Some h)"
    using assms(3) k1 by (auto simp: kept_def sessions_send_all)
  then have cl: "readyState (sockets (deliver h ev ?w1) h) \<noteq> OPEN"
    by (rule deliver_closes)
  have ab: "after_abort h rest (deliver h ev ?w1) = (r, w')"
    using run ne cl by (subst (asm) sendNextChunk.simps) (auto simp: Let_def split: sock_event.splits)
  have "r = Pending" using after_abort_pending[OF assms(4), of h "deliver h ev ?w1"] ab by simp
  moreover have "kept w w'"
    using kept_trans[OF k1 kept_trans[OF kept_deliver kept_after_abort[OF ab]]] .
  moreover have "sent (sockets w' h) = sent (sockets w h) @ map Binary (take k (frames_of pcm))"
    using sent_after_abort[OF ab, of h] by (simp add: sent_deliver sent_send_all)
  ultimately show ?thesis by simp
qed

lemma processAndSend_run:
  assumes "sessions w sid = Some a" "audioBuffer (relays w a) \<noteq> []"
    "\<not> isProcessing (relays w a)" "processAndSend e sid w = (r, w')"
  obtains w2 where
    "try_block e sid a (concat (audioBuffer (relays w a)))
       (w\<lparr>relays := (relays w)(a := (relays w a)\<lparr>isProcessing := True\<rparr>)\<rparr>) = (r, w2)"
    "w' = (if r = Pending then w2 else finally_block sid a w2)"
proof -
  obtain r1 w2 where t:
    "try_block e sid a (concat (audioBuffer (relays w a)))
       (w\<lparr>relays := (relays w)(a := (relays w a)\<lparr>isProcessing := True\<rparr>)\<rparr>) = (r1, w2)"
    by fastforce
  have "r = r1 \<and> w' = (if r1 = Pending then w2 else finally_block sid a w2)"
    using assms t by (cases r1) (auto simp: processAndSend_def Let_def)
  then show ?thesis using t that by simp
qed

lemma demo_world_eq:
  "sessions demo_world ''s1'' = Some 0 \<and> audioBuffer (relays demo_world 0) = [[1, 2, 3]] \<and>
   \<not> isProcessing (relays demo_world 0) \<and> socket (relays demo_world 0) = None \<and>
   meetingJoinUrl (relays demo_world 0) = ''wss://example/asr'' \<and>
   write_error demo_world (tempInputFile ''s1'') = None"
  by (simp add: demo_world_def fresh_world_def writeChunk_def create_def init_world_def Let_def)

subsection \<open>The example runs, evaluated\<close>

lemmas run_defs = processAndSend_def try_block_def transcodeWithFfmpeg_def sendToTingwu_def
  finally_block_def ws_send_def grace_def sendNextChunk.simps Let_def
  tempInputFile_def tempOutputFile_def path_join_def tmpdir_def subarray_def chunkSize_def
  demo_world_def fresh_world_def writeChunk_def create_def init_world_def stop_def ws_close_def
  new_socket_def set_readyState_def
  copy_env_def refused_env_def exit1_env_def silent_env_def empty_env_def hang_env_def
  badurl_env_def readonly_world_def stop_env_def reset_env_def
  copy_run_def refused_run_def exit1_run_def silent_run_def badurl_run_def readonly_run_def
  hang_run_def stop_run_def reset_run_def

lemma copy_run_eq: "copy_run = (Resolved, snd copy_run)"
  by (simp add: run_defs)





lemma hang_run_eq:
  "fst hang_run = Pending \<and> sessions (snd hang_run) ''s1'' = Some 0 \<and>
   isProcessing (relays (snd hang_run) 0)"
  by (simp add: run_defs)

lemma copy_run_session: "sessions (snd copy_run) ''s1'' = Some 0"
  by (simp add: run_defs)

section \<open>The claims\<close>

subsection \<open>Creating and writing\<close>

text \<open>
  Claim C7. Creating a session under an id that is already in the store changes
  nothing: after \<^verbatim>\<open>create\<close> the id is in the store, a second \<^verbatim>\<open>create\<close> with the same id
  (and any URL) returns the world as it was, and so does \<^verbatim>\<open>create\<close> on any world that
  already has the id, whatever was written to the session in between. The store is a
  map, so the id names one session; its buffer, URL, socket and processing flag are as
  before.
\<close>

theorem create_existing_noop:
  "sessions (create sid u1 w) sid \<noteq> None \<and>
   create sid u2 (create sid u1 w) = create sid u1 w \<and>
   (sessions w sid \<noteq> None \<longrightarrow> create sid u2 w = w)"
  by (simp add: create_def Let_def)

theorem create_existing_noop_witness:
  "sessions demo_world ''s1'' \<noteq> None \<and>
   create ''s1'' ''wss://other/asr'' demo_world = demo_world \<and>
   audioBuffer (relays (create ''s1'' ''wss://other/asr'' demo_world) 0) = [[1, 2, 3]]"
  using create_existing_noop[of "''s1''" "''wss://example/asr''" demo_world "''wss://other/asr''"]
    demo_world_eq
  by simp

text \<open>
  Claim C8, as the code has it. \<^verbatim>\<open>write\<close> on an id that is not in the store fails with
  the relay-not-found error, and no world is returned: nothing was created. On an id
  in the store it appends the chunk at the end of that session's buffer, which grows by
  one chunk and keeps its earlier chunks; nothing else in the world changes. The
  method resolves with no value: the new number of chunks is not returned.
\<close>

theorem writeChunk_appends:
  "(sessions w sid = None \<longrightarrow> writeChunk sid chunk w = Inl (RelayNotFound sid)) \<and>
   (\<forall>a. sessions w sid = Some a \<longrightarrow>
      (\<exists>w'. writeChunk sid chunk w = Inr (Undefined, w') \<and>
         audioBuffer (relays w' a) = audioBuffer (relays w a) @ [chunk] \<and>
         length (audioBuffer (relays w' a)) = Suc (length (audioBuffer (relays w a))) \<and>
         socket (relays w' a) = socket (relays w a) \<and>
         meetingJoinUrl (relays w' a) = meetingJoinUrl (relays w a) \<and>
         isProcessing (relays w' a) = isProcessing (relays w a) \<and>
         (\<forall>b. b \<noteq> a \<longrightarrow> relays w' b = relays w b) \<and>
         sessions w' = sessions w \<and> relay_count w' = relay_count w \<and>
         sockets w' = sockets w \<and> socket_count w' = socket_count w \<and>
         files w' = files w \<and> ffmpeg_inputs w' = ffmpeg_inputs w))"
  by (simp add: writeChunk_def Let_def)

theorem writeChunk_appends_witness:
  "writeChunk ''nobody'' [7] demo_world = Inl (RelayNotFound ''nobody'') \<and>
   (\<exists>w'. writeChunk ''s1'' [7] demo_world = Inr (Undefined, w') \<and>
      audioBuffer (relays w' 0) = [[1, 2, 3], [7]])"
proof -
  have a: "sessions demo_world ''nobody'' = None"
    by (simp add: run_defs)
  have b: "sessions demo_world ''s1'' = Some 0" using demo_world_eq by simp
  from writeChunk_appends[of demo_world "''nobody''" "[7]"] a
  have 1: "writeChunk ''nobody'' [7] demo_world = Inl (RelayNotFound ''nobody'')" by simp
  from writeChunk_appends[of demo_world "''s1''" "[7]"] b demo_world_eq
  have 2: "\<exists>w'. writeChunk ''s1'' [7] demo_world = Inr (Undefined, w') \<and>
      audioBuffer (relays w' 0) = [[1, 2, 3], [7]]"
    by auto
  from 1 2 show ?thesis by simp
qed

text \<open>
  Against C8 as stated: the first write to a new session makes the chunk count \<open>1\<close>,
  and the method does not resolve with \<open>1\<close>.
\<close>

theorem writeChunk_returns_count_counterexample:
  "map_sum id fst (writeChunk ''s1'' [1, 2, 3] fresh_world) = Inr Undefined \<and>
   map_sum id fst (writeChunk ''s1'' [1, 2, 3] fresh_world) \<noteq> Inr (Number 1)"
  by (simp add: run_defs)

subsection \<open>The guards of processAndSend\<close>

text \<open>
  Claim C9. For a session in the store whose buffer is empty, \<^verbatim>\<open>processAndSend\<close>
  resolves and leaves the world as it was: no socket was created and no converter was
  run.
\<close>

theorem processAndSend_empty_buffer:
  "sessions w sid = Some a \<Longrightarrow> audioBuffer (relays w a) = [] \<Longrightarrow>
     processAndSend e sid w = (Resolved, w) \<and>
     socket_count (snd (processAndSend e sid w)) = socket_count w \<and>
     ffmpeg_inputs (snd (processAndSend e sid w)) = ffmpeg_inputs w"
  by (simp add: processAndSend_def)

theorem processAndSend_empty_buffer_witness:
  "processAndSend copy_env ''s1'' fresh_world = (Resolved, fresh_world) \<and>
   socket_count (snd (processAndSend copy_env ''s1'' fresh_world)) = 0 \<and>
   ffmpeg_inputs (snd (processAndSend copy_env ''s1'' fresh_world)) = []"
proof -
  have "sessions fresh_world ''s1'' = Some 0" "audioBuffer (relays fresh_world 0) = []"
    "socket_count fresh_world = 0" "ffmpeg_inputs fresh_world = []"
    by (simp_all add: fresh_world_def create_def init_world_def Let_def)
  then show ?thesis
    using processAndSend_empty_buffer[of fresh_world "''s1''" 0 copy_env] by simp
qed

text \<open>
  Claim C6. For a session in the store whose processing flag is set,
  \<^verbatim>\<open>processAndSend\<close> resolves and leaves the world as it was: no converter was run and no
  socket was created, so the call in flight stays the only one.
\<close>

theorem processAndSend_guard:
  "sessions w sid = Some a \<Longrightarrow> isProcessing (relays w a) \<Longrightarrow>
     processAndSend e sid w = (Resolved, w) \<and>
     socket_count (snd (processAndSend e sid w)) = socket_count w \<and>
     ffmpeg_inputs (snd (processAndSend e sid w)) = ffmpeg_inputs w"
  by (simp add: processAndSend_def)

theorem processAndSend_guard_witness:
  "isProcessing (relays (snd hang_run) 0) \<and>
   processAndSend copy_env ''s1'' (snd hang_run) = (Resolved, snd hang_run)"
  using processAndSend_guard[of "snd hang_run" "''s1''" 0 copy_env] hang_run_eq
  by simp

subsection \<open>Cleanup and failures\<close>



text \<open>
  Claim C5, as the code has it. Take a session in the store with a buffer that is not
  empty and the processing flag clear, whose input file can be written; the converter
  is given the concatenation of the buffer. If it closes with a code other than \<open>0\<close>,
  \<^verbatim>\<open>processAndSend\<close> is rejected with the error whose message is
  \<^verbatim>\<open>ffmpeg exited with code\<close> followed by that code. If it closes with \<open>0\<close> and there is
  no output file (it wrote none and none was there), the call is rejected with
  \<^verbatim>\<open>FFmpeg output file not created\<close>. If it closes with \<open>0\<close> and the output file is
  empty, the call is rejected with \<^verbatim>\<open>FFmpeg produced empty output\<close>. In all three cases
  the error is the same whatever the converter printed on its error stream: that text
  is not carried, and the last two errors do not carry the exit status either.
\<close>

theorem processAndSend_transcode_failure:
  assumes "sessions w sid = Some a" "audioBuffer (relays w a) \<noteq> []"
    "\<not> isProcessing (relays w a)" "write_error w (tempInputFile sid) = None"
  shows
    "(ffmpeg e (Some (concat (audioBuffer (relays w a)))) = Close code stderr out \<and>
      code \<noteq> Some 0 \<longrightarrow>
        fst (processAndSend e sid w) = Rejected (FfmpegExited code) \<and>
        message (FfmpegExited code) = ''ffmpeg exited with code '' @ show_code code) \<and>
     (ffmpeg e (Some (concat (audioBuffer (relays w a)))) = Close (Some 0) stderr None \<and>
      files w (tempOutputFile sid) = None \<longrightarrow>
        fst (processAndSend e sid w) = Rejected OutputNotCreated \<and>
        message OutputNotCreated = ''FFmpeg output file not created'') \<and>
     (ffmpeg e (Some (concat (audioBuffer (relays w a)))) = Close (Some 0) stderr (Some []) \<longrightarrow>
        fst (processAndSend e sid w) = Rejected EmptyOutput \<and>
        message EmptyOutput = ''FFmpeg produced empty output'')"
  using assms temp_files_differ[of sid]
  by (simp add: processAndSend_def try_block_def transcodeWithFfmpeg_def Let_def)

theorem processAndSend_transcode_failure_witness:
  "fst (processAndSend exit1_env ''s1'' demo_world) = Rejected (FfmpegExited (Some 1)) \<and>
   fst (processAndSend silent_env ''s1'' demo_world) = Rejected OutputNotCreated \<and>
   fst (processAndSend empty_env ''s1'' demo_world) = Rejected EmptyOutput"
proof -
  have d: "sessions demo_world ''s1'' = Some 0" "audioBuffer (relays demo_world 0) \<noteq> []"
    "\<not> isProcessing (relays demo_world 0)"
    "write_error demo_world (tempInputFile ''s1'') = None"
    using demo_world_eq by simp_all
  have f: "files demo_world (tempOutputFile ''s1'') = None"
    by (simp add: demo_world_def fresh_world_def writeChunk_def create_def init_world_def Let_def)
  have 1: "fst (processAndSend exit1_env ''s1'' demo_world) = Rejected (FfmpegExited (Some 1))"
    using processAndSend_transcode_failure[OF d, of exit1_env "Some 1"
        "''Invalid data found when processing input''" None]
    by (simp add: exit1_env_def copy_env_def)
  have 2: "fst (processAndSend silent_env ''s1'' demo_world) = Rejected OutputNotCreated"
    using processAndSend_transcode_failure[OF d, of silent_env _ "''Output file is empty''"] f
    by (simp add: silent_env_def copy_env_def)
  have 3: "fst (processAndSend empty_env ''s1'' demo_world) = Rejected EmptyOutput"
    using processAndSend_transcode_failure[OF d, of empty_env _ "''Output file is empty''"]
    by (simp add: empty_env_def copy_env_def)
  from 1 2 3 show ?thesis by simp
qed

text \<open>
  Against C5 as stated. The converter prints \<^verbatim>\<open>Invalid data found when processing input\<close>
  and exits with \<open>1\<close>: the message of the error is \<^verbatim>\<open>ffmpeg exited with code 1\<close>, without
  the diagnostic. The converter prints \<^verbatim>\<open>Output file is empty\<close>, exits with \<open>0\<close> and writes
  nothing: the message of the error is \<^verbatim>\<open>FFmpeg output file not created\<close>, with neither
  the status nor the diagnostic.
\<close>

theorem transcode_error_text_counterexample:
  "ffmpeg exit1_env (Some [1, 2, 3]) =
     Close (Some 1) ''Invalid data found when processing input'' None \<and>
   fst exit1_run = Rejected (FfmpegExited (Some 1)) \<and>
   message (FfmpegExited (Some 1)) = ''ffmpeg exited with code 1'' \<and>
   ffmpeg silent_env (Some [1, 2, 3]) = Close (Some 0) ''Output file is empty'' None \<and>
   fst silent_run = Rejected OutputNotCreated \<and>
   message OutputNotCreated = ''FFmpeg output file not created''"
  by (simp add: run_defs show_int_def show_nat.simps)




text \<open>
  Claim C3, as the code has it. Take a session in the store with a buffer that is not
  empty and the processing flag clear, and a \<^verbatim>\<open>processAndSend\<close> on it that resolves with
  the session still in the store. The converter was given the concatenation of the
  buffered chunks in order, and the buffer is what it was: nothing was removed from it.
  A second \<^verbatim>\<open>processAndSend\<close>, with nothing written in between, gives the converter the
  same audio once more.
\<close>

theorem processAndSend_keeps_buffer:
  assumes "sessions w sid = Some a" "audioBuffer (relays w a) \<noteq> []"
    "\<not> isProcessing (relays w a)" "processAndSend e sid w = (Resolved, w')"
    "sessions w' sid \<noteq> None"
  shows "audioBuffer (relays w' a) = audioBuffer (relays w a) \<and>
         ffmpeg_inputs w' = ffmpeg_inputs w @ [Some (concat (audioBuffer (relays w a)))] \<and>
         ffmpeg_inputs (snd (processAndSend e' sid w')) =
           ffmpeg_inputs w @ [Some (concat (audioBuffer (relays w a))),
                              Some (concat (audioBuffer (relays w a)))]"
proof -
  let ?full = "concat (audioBuffer (relays w a))"
  from assms(1-4) obtain w2 where
    t: "try_block e sid a ?full
       (w\<lparr>relays := (relays w)(a := (relays w a)\<lparr>isProcessing := True\<rparr>)\<rparr>) = (Resolved, w2)"
    and w': "w' = (if Resolved = Pending then w2 else finally_block sid a w2)"
    by (rule processAndSend_run)
  note f = try_block_frame[OF t]
  have buf: "audioBuffer (relays w' a) = audioBuffer (relays w a)"
    using f w' by (simp add: finally_block_def)
  have inp: "ffmpeg_inputs w' = ffmpeg_inputs w @ [Some ?full]"
    using f w' by (simp add: finally_block_def)
  have "sessions w' sid = None \<or> sessions w' sid = sessions w sid"
    using f w' by (simp add: finally_block_def)
  then have s: "sessions w' sid = Some a" using assms(1,5) by auto
  have np: "\<not> isProcessing (relays w' a)" using w' by (simp add: finally_block_def)
  obtain r2 w3 where p2: "processAndSend e' sid w' = (r2, w3)" by fastforce
  from s assms(2) np p2 buf obtain w4 where
    t2: "try_block e' sid a ?full
       (w'\<lparr>relays := (relays w')(a := (relays w' a)\<lparr>isProcessing := True\<rparr>)\<rparr>) = (r2, w4)"
    and w3: "w3 = (if r2 = Pending then w4 else finally_block sid a w4)"
    using processAndSend_run[of w' sid a e' r2 w3] by auto
  have "write_error w' (tempInputFile sid) = None"
    using f w' by (simp add: finally_block_def)
  then have "ffmpeg_inputs w3 = ffmpeg_inputs w' @ [Some ?full]"
    using try_block_frame[OF t2] w3 by (simp add: finally_block_def)
  then show ?thesis using buf inp p2 by simp
qed

theorem processAndSend_keeps_buffer_witness:
  "audioBuffer (relays (snd copy_run) 0) = [[1, 2, 3]] \<and>
   ffmpeg_inputs (snd copy_run) = [Some [1, 2, 3]] \<and>
   ffmpeg_inputs (snd (processAndSend copy_env ''s1'' (snd copy_run))) =
     [Some [1, 2, 3], Some [1, 2, 3]]"
proof -
  have d: "sessions demo_world ''s1'' = Some 0" "audioBuffer (relays demo_world 0) \<noteq> []"
    "\<not> isProcessing (relays demo_world 0)"
    using demo_world_eq by simp_all
  have i: "ffmpeg_inputs demo_world = []"
    by (simp add: demo_world_def fresh_world_def writeChunk_def create_def init_world_def Let_def)
  have 1: "processAndSend copy_env ''s1'' demo_world = (Resolved, snd copy_run)"
    using copy_run_eq by (simp add: copy_run_def)
  have 2: "sessions (snd copy_run) ''s1'' \<noteq> None" using copy_run_session by simp
  show ?thesis
    using processAndSend_keeps_buffer[OF d 1 2, of copy_env] demo_world_eq i by simp
qed

text \<open>
  Against C3 as stated: after a \<^verbatim>\<open>processAndSend\<close> on \<open>s1\<close> that resolved, the buffer still
  holds the chunk, and a second call resolves too, having opened a second socket and
  sent the same three bytes on it.
\<close>

theorem buffer_not_drained_counterexample:
  "fst copy_run = Resolved \<and>
   audioBuffer (relays (snd copy_run) 0) = [[1, 2, 3]] \<and>
   fst (processAndSend copy_env ''s1'' (snd copy_run)) = Resolved \<and>
   sent (sockets (snd (processAndSend copy_env ''s1'' (snd copy_run))) 1) =
     [Text startCommand, Binary [1, 2, 3], Text stopCommand]"
  by (simp add: run_defs)

subsection \<open>The streaming phase\<close>

text \<open>When the socket opens and nothing else happens, the streaming phase resolves.\<close>

lemma sendNextChunk_undisturbed:
  "readyState (sockets w h) = OPEN \<Longrightarrow> fst (sendNextChunk h pcm [] off w) = Resolved"
proof (induction "length pcm - off" arbitrary: off w rule: less_induct)
  case less
  show ?case
  proof (cases "length pcm \<le> off")
    case True
    then show ?thesis using less.prems
      by (subst sendNextChunk.simps) (simp add: grace_def Let_def readyState_ws_send)
  next
    case False
    let ?end = "min (off + chunkSize) (length pcm)"
    let ?w1 = "ws_send h (Binary (subarray pcm off ?end)) w"
    have "sendNextChunk h pcm [] off w = sendNextChunk h pcm [] ?end ?w1"
      using False less.prems by (subst sendNextChunk.simps) (simp add: Let_def)
    moreover have "length pcm - ?end < length pcm - off"
      using False chunkSize_pos by simp
    moreover have "readyState (sockets ?w1 h) = OPEN"
      using less.prems by (simp add: readyState_ws_send)
    ultimately show ?thesis using less.hyps by simp
  qed
qed

lemma opened_socket:
  "readyState (sockets (ws_send (socket_count w) (Text startCommand)
      (set_readyState (socket_count w) OPEN (new_socket a w))) (socket_count w)) = OPEN \<and>
   sent (sockets (ws_send (socket_count w) (Text startCommand)
      (set_readyState (socket_count w) OPEN (new_socket a w))) (socket_count w)) =
     [Text (StartTranscription ''pcm'' 16000)] \<and>
   sessions (ws_send (socket_count w) (Text startCommand)
      (set_readyState (socket_count w) OPEN (new_socket a w))) = sessions w \<and>
   socket (relays (ws_send (socket_count w) (Text startCommand)
      (set_readyState (socket_count w) OPEN (new_socket a w))) a) = Some (socket_count w)"
  by (simp add: ws_send_def set_readyState_def new_socket_def startCommand_def Let_def)

lemma sendToTingwu_undisturbed:
  "c (meetingJoinUrl (relays w a)) = Opens \<Longrightarrow> fst (sendToTingwu c [] a pcm w) = Resolved"
  by (simp add: sendToTingwu_def sendNextChunk_undisturbed opened_socket)

text \<open>
  Claim C1. When the streaming phase for a payload of \<open>N\<close> bytes resolves, the socket it
  created has been sent, in this order: the start message, which is the
  \<^verbatim>\<open>StartTranscription\<close> message with format \<^verbatim>\<open>pcm\<close> and sample rate 16000;
  \<open>(N + 1023) div 1024\<close> binary frames, none empty, none longer than 1024 bytes, all but
  the last of exactly 1024 bytes, whose concatenation is the payload; the stop message,
  which is the \<^verbatim>\<open>StopTranscription\<close> message. Nothing else was sent on it, so there is one
  start message, one stop message, and every binary frame lies between them.
\<close>

theorem sendToTingwu_frames:
  assumes "sendToTingwu c es a pcmData w = (Resolved, w')"
  shows "\<exists>fs. sent (sockets w' (socket_count w)) =
              Text (StartTranscription ''pcm'' 16000) # map Binary fs @
              [Text StopTranscription] \<and>
            length fs = (length pcmData + 1023) div 1024 \<and>
            concat fs = pcmData \<and>
            (\<forall>f \<in> set fs. f \<noteq> [] \<and> length f \<le> 1024) \<and>
            (\<forall>f \<in> set (butlast fs). length f = 1024)"
proof -
  have c: "c (meetingJoinUrl (relays w a)) = Opens"
    using assms by (cases "c (meetingJoinUrl (relays w a))") (simp_all add: sendToTingwu_def)
  then have "sendNextChunk (socket_count w) pcmData es 0
      (ws_send (socket_count w) (Text startCommand)
         (set_readyState (socket_count w) OPEN (new_socket a w))) = (Resolved, w')"
    using assms by (simp add: sendToTingwu_def)
  from sendNextChunk_frames[OF this]
  have s: "sent (sockets w' (socket_count w)) =
             Text (StartTranscription ''pcm'' 16000) # map Binary (frames_of pcmData) @
             [Text StopTranscription]"
    using opened_socket[of w a] by (simp add: stopCommand_def)
  have "length (frames_of pcmData) = (length pcmData + 1023) div 1024"
    using length_frames_of[of pcmData] by (simp add: chunkSize_def)
  moreover have "\<forall>f \<in> set (frames_of pcmData). f \<noteq> [] \<and> length f \<le> 1024"
    using frames_of_sizes[of _ pcmData] by (simp add: chunkSize_def)
  moreover have "\<forall>f \<in> set (butlast (frames_of pcmData)). length f = 1024"
    using frames_of_full[of _ pcmData] by (simp add: chunkSize_def)
  ultimately show ?thesis using s concat_frames_of[of pcmData] by blast
qed

text \<open>A payload of 2500 bytes: three frames, of 1024, 1024 and 452 bytes.\<close>

theorem sendToTingwu_frames_witness:
  "\<exists>fs. sent (sockets (snd (sendToTingwu (\<lambda>u. Opens) [] 0 (replicate 2500 0) demo_world)) 0) =
           Text (StartTranscription ''pcm'' 16000) # map Binary fs @ [Text StopTranscription] \<and>
         length fs = 3 \<and> concat fs = replicate 2500 0"
proof -
  have "sendToTingwu (\<lambda>u. Opens) [] 0 (replicate 2500 0) demo_world =
          (Resolved, snd (sendToTingwu (\<lambda>u. Opens) [] 0 (replicate 2500 0) demo_world))"
    using sendToTingwu_undisturbed[of "\<lambda>u. Opens" demo_world 0 "replicate 2500 0"]
    by (simp add: prod_eq_iff)
  from sendToTingwu_frames[OF this] show ?thesis
    by (simp add: demo_world_def fresh_world_def writeChunk_def create_def init_world_def Let_def)
       blast
qed

lemma scenario_frames:
  "sent (sockets (snd (sendToTingwu (\<lambda>u. Opens) [] 0 (replicate 2500 0) demo_world)) 0) =
     [Text (StartTranscription ''pcm'' 16000), Binary (replicate 1024 0),
      Binary (replicate 1024 0), Binary (replicate 452 0), Text StopTranscription]"
  by (simp add: run_defs startCommand_def stopCommand_def)

subsection \<open>A socket that leaves the open state\<close>

lemma transcode_success:
  assumes "conv (files w i) = Close (Some 0) stderr (Some b)"
    "transcodeWithFfmpeg conv i out w = (r, w')"
  shows "r = Resolved \<and> files w' out = Some b"
  using assms by (auto simp: transcodeWithFfmpeg_def Let_def)

lemma sendToTingwu_closed:
  assumes "c (meetingJoinUrl (relays w a)) = Opens" "k \<le> length (frames_of pcm)"
    "ev = PeerClose \<or> (ev = ConcurrentStop sid \<and> sessions w sid = Some a)"
    "\<forall>m. SockError m \<notin> set rest"
    "sendToTingwu c (replicate k Quiet @ ev # rest) a pcm w = (r, w')"
  shows "r = Pending \<and>
         sent (sockets w' (socket_count w)) =
           Text (StartTranscription ''pcm'' 16000) # map Binary (take k (frames_of pcm))"
proof -
  let ?h = "socket_count w"
  let ?w3 = "ws_send ?h (Text startCommand) (set_readyState ?h OPEN (new_socket a w))"
  have run: "sendNextChunk ?h pcm (replicate k Quiet @ ev # rest) 0 ?w3 = (r, w')"
    using assms(1,5) by (simp add: sendToTingwu_def)
  have op: "readyState (sockets ?w3 ?h) = OPEN" using opened_socket[of w a] by simp
  have ev: "ev = PeerClose \<or> (ev = ConcurrentStop sid \<and> sessions ?w3 sid = Some a \<and>
       socket (relays ?w3 a) = Some ?h)"
    using assms(3) opened_socket[of w a] by simp
  from sendNextChunk_closed[OF op assms(2) ev assms(4) run] opened_socket[of w a]
  show ?thesis by simp
qed

lemma sendNextChunk_failed:
  assumes "readyState (sockets w h) = OPEN" "k \<le> length (frames_of pcm)"
    "sendNextChunk h pcm (replicate k Quiet @ SockError m # rest) 0 w = (r, w')"
  shows "r = Rejected (SocketError m) \<and> kept w w' \<and>
         readyState (sockets w' h) = CLOSING \<and>
         sent (sockets w' h) = sent (sockets w h) @ map Binary (take k (frames_of pcm))"
proof -
  let ?w1 = "send_all h (take k (frames_of pcm)) w"
  let ?off = "min (0 + k * chunkSize) (length pcm)"
  have "sendNextChunk h pcm (SockError m # rest) ?off ?w1 = (r, w')"
    using sendNextChunk_quiet[of w h k 0 pcm "SockError m # rest"] assms by simp
  then have r: "r = Rejected (SocketError m)" and w': "w' = deliver h (SockError m) ?w1"
    by (subst (asm) sendNextChunk.simps, simp)+
  have "kept w w'"
    unfolding w' by (rule kept_trans[OF kept_send_all kept_deliver])
  moreover have "readyState (sockets w' h) = CLOSING" unfolding w' by simp
  moreover have "sent (sockets w' h) = sent (sockets w h) @ map Binary (take k (frames_of pcm))"
    unfolding w' by (simp add: sent_deliver sent_send_all)
  ultimately show ?thesis using r by simp
qed

lemma sendToTingwu_failed:
  assumes "c (meetingJoinUrl (relays w a)) = Opens" "k \<le> length (frames_of pcm)"
    "sendToTingwu c (replicate k Quiet @ SockError m # rest) a pcm w = (r, w')"
  shows "r = Rejected (SocketError m) \<and>
         readyState (sockets w' (socket_count w)) = CLOSING \<and>
         sent (sockets w' (socket_count w)) =
           Text (StartTranscription ''pcm'' 16000) # map Binary (take k (frames_of pcm))"
proof -
  let ?h = "socket_count w"
  let ?w3 = "ws_send ?h (Text startCommand) (set_readyState ?h OPEN (new_socket a w))"
  have run: "sendNextChunk ?h pcm (replicate k Quiet @ SockError m # rest) 0 ?w3 = (r, w')"
    using assms(1,3) by (simp add: sendToTingwu_def)
  have op: "readyState (sockets ?w3 ?h) = OPEN" using opened_socket[of w a] by simp
  from sendNextChunk_failed[OF op assms(2) run] opened_socket[of w a]
  show ?thesis by simp
qed

text \<open>
  A call whose input file can be written, whose converter succeeds with a payload that
  is not empty, and whose socket constructor does not throw: it reaches the streaming
  phase, in a world that holds both temporary files and has the processing flag set.
\<close>

lemma processAndSend_streams:
  assumes "sessions w sid = Some a" "audioBuffer (relays w a) \<noteq> []"
    "\<not> isProcessing (relays w a)" "write_error w (tempInputFile sid) = None"
    "ffmpeg e (Some (concat (audioBuffer (relays w a)))) = Close (Some 0) stderr (Some pcm)"
    "pcm \<noteq> []" "processAndSend e sid w = (r, w')"
  obtains w3 w2 where
    "sendToTingwu (connect e) (events e) a pcm w3 = (r, w2)"
    "w' = (if r = Pending then w2 else finally_block sid a w2)"
    "files w3 (tempInputFile sid) = Some (concat (audioBuffer (relays w a)))"
    "files w3 (tempOutputFile sid) = Some pcm"
    "isProcessing (relays w3 a)" "socket_count w3 = socket_count w"
    "sessions w3 sid = Some a"
    "meetingJoinUrl (relays w3 a) = meetingJoinUrl (relays w a)"
proof -
  let ?full = "concat (audioBuffer (relays w a))"
  let ?w0 = "w\<lparr>relays := (relays w)(a := (relays w a)\<lparr>isProcessing := True\<rparr>)\<rparr>"
  let ?w1 = "?w0\<lparr>files := (files ?w0)(tempInputFile sid \<mapsto> ?full)\<rparr>"
  from assms(1-3,7) obtain w2 where
    t: "try_block e sid a ?full ?w0 = (r, w2)"
    and w': "w' = (if r = Pending then w2 else finally_block sid a w2)"
    by (rule processAndSend_run)
  have conv: "ffmpeg e (files ?w1 (tempInputFile sid)) = Close (Some 0) stderr (Some pcm)"
    using assms(5) by simp
  from t show ?thesis
  proof (cases rule: try_block_cases)
    case (unwritable m)
    then show ?thesis using assms(4) by simp
  next
    case (transcode err)
    then show ?thesis using transcode_success[OF conv transcode(2)] by simp
  next
    case missing
    then show ?thesis using transcode_success[OF conv missing(2)] by simp
  next
    case empty
    then show ?thesis using transcode_success[OF conv empty(2)] assms(6) by simp
  next
    case (stream w3 pcm')
    note fr = transcode_frame[OF stream(2)]
    have p: "pcm' = pcm" using transcode_success[OF conv stream(2)] stream(3) by simp
    show ?thesis
    proof (rule that[of w3 w2])
      show "sendToTingwu (connect e) (events e) a pcm w3 = (r, w2)" using stream(5) p by simp
      show "w' = (if r = Pending then w2 else finally_block sid a w2)" by (rule w')
      show "files w3 (tempInputFile sid) = Some ?full"
        using fr temp_files_differ[of sid] by simp
      show "files w3 (tempOutputFile sid) = Some pcm" using stream(3) p by simp
      show "isProcessing (relays w3 a)" using fr by simp
      show "socket_count w3 = socket_count w" using fr by simp
      show "sessions w3 sid = Some a" using fr assms(1) by simp
      show "meetingJoinUrl (relays w3 a) = meetingJoinUrl (relays w a)" using fr by simp
    qed
  qed
qed

text \<open>
  Claim C10, as the code has it. Take a session in the store with a buffer that is not
  empty and the processing flag clear, whose input file can be written, a converter
  that succeeds with a payload that is not empty, and a socket that opens. Suppose
  the first \<open>k\<close> frames go out undisturbed (\<open>k\<close> at most the number of frames), and then
  the socket leaves the open state.

  If it does so without an \<^verbatim>\<open>error\<close> event (the peer closes it, or the caller runs
  \<^verbatim>\<open>stop\<close> on the session) and no \<^verbatim>\<open>error\<close> event follows, then the socket has been sent
  the start message and those \<open>k\<close> frames and nothing more, in particular no stop
  message; the promise of the streaming phase is never settled, so neither is
  \<^verbatim>\<open>processAndSend\<close>; the \<^verbatim>\<open>finally\<close> block has not run: the processing flag of the relay
  object is still set and both temporary files are still there.

  If it does so with an \<^verbatim>\<open>error\<close> event, then the socket has again been sent the start
  message and those \<open>k\<close> frames and nothing more, but the \<^verbatim>\<open>error\<close> handler has rejected
  the promise: \<^verbatim>\<open>processAndSend\<close> is rejected with that error and the \<^verbatim>\<open>finally\<close> block has
  run, so the processing flag is clear and both temporary files are gone.
\<close>

theorem processAndSend_hangs:
  assumes "sessions w sid = Some a" "audioBuffer (relays w a) \<noteq> []"
    "\<not> isProcessing (relays w a)" "write_error w (tempInputFile sid) = None"
    "ffmpeg e (Some (concat (audioBuffer (relays w a)))) = Close (Some 0) stderr (Some pcm)"
    "pcm \<noteq> []" "connect e (meetingJoinUrl (relays w a)) = Opens"
    "events e = replicate k Quiet @ ev # rest" "k \<le> length (frames_of pcm)"
    "processAndSend e sid w = (r, w')"
  shows
    "((ev = PeerClose \<or> ev = ConcurrentStop sid) \<and> (\<forall>m. SockError m \<notin> set rest) \<longrightarrow>
        r = Pending \<and> isProcessing (relays w' a) \<and>
        files w' (tempInputFile sid) = Some (concat (audioBuffer (relays w a))) \<and>
        files w' (tempOutputFile sid) = Some pcm \<and>
        sent (sockets w' (socket_count w)) =
          Text (StartTranscription ''pcm'' 16000) # map Binary (take k (frames_of pcm))) \<and>
     (\<forall>m. ev = SockError m \<longrightarrow>
        r = Rejected (SocketError m) \<and> \<not> isProcessing (relays w' a) \<and>
        files w' (tempInputFile sid) = None \<and> files w' (tempOutputFile sid) = None \<and>
        readyState (sockets w' (socket_count w)) = CLOSING \<and>
        sent (sockets w' (socket_count w)) =
          Text (StartTranscription ''pcm'' 16000) # map Binary (take k (frames_of pcm)))"
proof -
  from assms(1-6,10) obtain w3 w2 where
    run: "sendToTingwu (connect e) (events e) a pcm w3 = (r, w2)"
    and w': "w' = (if r = Pending then w2 else finally_block sid a w2)"
    and f: "files w3 (tempInputFile sid) = Some (concat (audioBuffer (relays w a)))"
      "files w3 (tempOutputFile sid) = Some pcm"
    and p: "isProcessing (relays w3 a)"
    and c: "socket_count w3 = socket_count w"
    and s: "sessions w3 sid = Some a"
    and u: "meetingJoinUrl (relays w3 a) = meetingJoinUrl (relays w a)"
    by (rule processAndSend_streams)
  have o: "connect e (meetingJoinUrl (relays w3 a)) = Opens" using assms(7) u by simp
  note k = kept_sendToTingwu[OF run]
  have hang: "r = Pending \<and> isProcessing (relays w' a) \<and>
        files w' (tempInputFile sid) = Some (concat (audioBuffer (relays w a))) \<and>
        files w' (tempOutputFile sid) = Some pcm \<and>
        sent (sockets w' (socket_count w)) =
          Text (StartTranscription ''pcm'' 16000) # map Binary (take k (frames_of pcm))"
    if ev: "ev = PeerClose \<or> ev = ConcurrentStop sid" and ne: "\<forall>m. SockError m \<notin> set rest"
  proof -
    have ev': "ev = PeerClose \<or> (ev = ConcurrentStop sid \<and> sessions w3 sid = Some a)"
      using ev s by simp
    have run': "sendToTingwu (connect e) (replicate k Quiet @ ev # rest) a pcm w3 = (r, w2)"
      using run assms(8) by simp
    from sendToTingwu_closed[OF o assms(9) ev' ne run'] k o f p c w'
    show ?thesis by simp
  qed
  have fail: "r = Rejected (SocketError m) \<and> \<not> isProcessing (relays w' a) \<and>
        files w' (tempInputFile sid) = None \<and> files w' (tempOutputFile sid) = None \<and>
        readyState (sockets w' (socket_count w)) = CLOSING \<and>
        sent (sockets w' (socket_count w)) =
          Text (StartTranscription ''pcm'' 16000) # map Binary (take k (frames_of pcm))"
    if ev: "ev = SockError m" for m
  proof -
    have run': "sendToTingwu (connect e) (replicate k Quiet @ SockError m # rest) a pcm w3 =
                  (r, w2)"
      using run assms(8) ev by simp
    from sendToTingwu_failed[OF o assms(9) run'] c w'
    show ?thesis by (simp add: finally_block_def)
  qed
  from hang fail show ?thesis by blast
qed

text \<open>
  After the first of three frames the caller stops \<open>s1\<close>: the call stays pending, with
  the flag set and both files in place. After the first of three frames the socket
  fails: the call is rejected, with the flag clear and both files gone.
\<close>

theorem processAndSend_hangs_witness:
  "(fst stop_run = Pending \<and> isProcessing (relays (snd stop_run) 0) \<and>
    files (snd stop_run) (tempInputFile ''s1'') = Some [1, 2, 3] \<and>
    files (snd stop_run) (tempOutputFile ''s1'') = Some (replicate 2500 0) \<and>
    sent (sockets (snd stop_run) 0) =
      [Text (StartTranscription ''pcm'' 16000), Binary (replicate 1024 0)]) \<and>
   (fst reset_run = Rejected (SocketError ''reset'') \<and>
    \<not> isProcessing (relays (snd reset_run) 0) \<and>
    files (snd reset_run) (tempInputFile ''s1'') = None \<and>
    files (snd reset_run) (tempOutputFile ''s1'') = None \<and>
    sent (sockets (snd reset_run) 0) =
      [Text (StartTranscription ''pcm'' 16000), Binary (replicate 1024 0)])"
proof -
  have d: "sessions demo_world ''s1'' = Some 0" "audioBuffer (relays demo_world 0) \<noteq> []"
    "\<not> isProcessing (relays demo_world 0)"
    "write_error demo_world (tempInputFile ''s1'') = None"
    using demo_world_eq by simp_all
  have c: "socket_count demo_world = 0"
    by (simp add: demo_world_def fresh_world_def writeChunk_def create_def init_world_def Let_def)
  have n: "replicate 2500 (0 :: byte) \<noteq> []" by simp
  have k: "1 \<le> length (frames_of (replicate 2500 (0 :: byte)))"
    by (simp add: length_frames_of chunkSize_def)
  have fr: "take 1 (frames_of (replicate 2500 (0 :: byte))) = [replicate 1024 0]"
    by (subst frames_of.simps) (simp add: chunkSize_def)
  have f1: "ffmpeg stop_env (Some (concat (audioBuffer (relays demo_world 0)))) =
             Close (Some 0) [] (Some (replicate 2500 0))"
    by (simp add: stop_env_def)
  have o1: "connect stop_env (meetingJoinUrl (relays demo_world 0)) = Opens"
    by (simp add: stop_env_def)
  have e1: "events stop_env = replicate 1 Quiet @ ConcurrentStop ''s1'' # []"
    by (simp add: stop_env_def)
  have p1: "processAndSend stop_env ''s1'' demo_world = (fst stop_run, snd stop_run)"
    by (simp add: stop_run_def)
  have f2: "ffmpeg reset_env (Some (concat (audioBuffer (relays demo_world 0)))) =
             Close (Some 0) [] (Some (replicate 2500 0))"
    by (simp add: reset_env_def stop_env_def)
  have o2: "connect reset_env (meetingJoinUrl (relays demo_world 0)) = Opens"
    by (simp add: reset_env_def stop_env_def)
  have e2: "events reset_env = replicate 1 Quiet @ SockError ''reset'' # []"
    by (simp add: reset_env_def)
  have p2: "processAndSend reset_env ''s1'' demo_world = (fst reset_run, snd reset_run)"
    by (simp add: reset_run_def)
  show ?thesis
    using processAndSend_hangs[OF d f1 n o1 e1 k p1] processAndSend_hangs[OF d f2 n o2 e2 k p2]
      demo_world_eq c fr
    by simp
qed

text \<open>
  Against C10 as stated: the socket fails after the first of three frames. It has left
  the open state and no further frame and no stop message was sent, but the \<^verbatim>\<open>error\<close>
  handler rejected the promise: \<^verbatim>\<open>processAndSend\<close> is rejected, the flag is clear and
  both files are gone.
\<close>

theorem socket_error_settles_counterexample:
  "fst reset_run = Rejected (SocketError ''reset'') \<and>
   sent (sockets (snd reset_run) 0) =
     [Text (StartTranscription ''pcm'' 16000), Binary (replicate 1024 0)] \<and>
   readyState (sockets (snd reset_run) 0) = CLOSING \<and>
   \<not> isProcessing (relays (snd reset_run) 0) \<and>
   files (snd reset_run) (tempInputFile ''s1'') = None \<and>
   files (snd reset_run) (tempOutputFile ''s1'') = None"
  by (simp add: run_defs startCommand_def)

end
